theory Spec2Isabelle
  imports Main
begin

section \<open>Block retrieval with retry and codec fallback (backupstore/util.go)\<close>

subsection \<open>Go values used by the code\<close>

text \<open>
  A Go \<open>error\<close> is either a base error carrying its text or an error wrapped with a
  message by \<open>errors.Wrapf\<close>. The text of a wrapped error is the message, a colon and a
  blank, then the text of the wrapped error.
\<close>

datatype error = New string | Wrapf error string

fun Error :: "error \<Rightarrow> string" where
  "Error (New s) = s"
| "Error (Wrapf e msg) = msg @ '': '' @ Error e"

text \<open>\<open>time.Duration\<close> counts nanoseconds; the constants are those of package \<open>time\<close>.\<close>

type_synonym Duration = int

definition Second :: Duration where
  "Second = 1000000000"

definition Minute :: Duration where
  "Minute = 60 * Second"

definition Hour :: Duration where
  "Hour = 60 * Minute"

text \<open>The verb \<open>%d\<close> of the format string: a natural number in decimal.\<close>

definition digit :: "nat \<Rightarrow> char" where
  "digit n = char_of (48 + n)"

function fmt_d :: "nat \<Rightarrow> string" where
  "fmt_d n = (if n < 10 then [digit n] else fmt_d (n div 10) @ [digit (n mod 10)])"
  by pat_completeness auto
termination
  by (relation "measure id") auto

declare fmt_d.simps [simp del]

text \<open>
  \<open>errors.Wrapf\<close> (package \<open>cockroachdb/errors\<close>) formats its message with package
  \<open>redact\<close>, which encloses every argument in the markers U+2039 and U+203A and, so
  that the markers stay unambiguous, writes a question mark for every marker that occurs
  inside an argument. \<open>Error\<close> strips the enclosing markers again. What remains of a
  string argument is the string with a question mark in the place of each of the two code
  points, that is of each of their UTF-8 encodings, three bytes each.
\<close>

definition redact_Start :: string where
  "redact_Start = [CHR 0xE2, CHR 0x80, CHR 0xB9]"

definition redact_End :: string where
  "redact_End = [CHR 0xE2, CHR 0x80, CHR 0xBA]"

fun EscapeMarkers :: "string \<Rightarrow> string" where
  "EscapeMarkers (a # b # c # s) =
     (if [a, b, c] = redact_Start \<or> [a, b, c] = redact_End
      then CHR ''?'' # EscapeMarkers s
      else a # EscapeMarkers (b # c # s))"
| "EscapeMarkers s = s"

text \<open>\<open>strings.Contains s substr\<close>: \<open>substr\<close> occurs in \<open>s\<close> as a contiguous run of bytes.\<close>

fun HasPrefix :: "string \<Rightarrow> string \<Rightarrow> bool" where
  "HasPrefix s [] = True"
| "HasPrefix [] (c # p) = False"
| "HasPrefix (x # s) (c # p) = (x = c \<and> HasPrefix s p)"

fun Contains :: "string \<Rightarrow> string \<Rightarrow> bool" where
  "Contains [] substr = (substr = [])"
| "Contains (x # s) substr = (HasPrefix (x # s) substr \<or> Contains s substr)"

text \<open>The text of \<open>gzip.ErrHeader\<close> (package \<open>compress/gzip\<close>).\<close>

definition gzip_ErrHeader :: error where
  "gzip_ErrHeader = New ''gzip: invalid header''"

subsection \<open>The world the functions act on\<close>

text \<open>
  The initial value of the package variable \<open>backoffDuration\<close>.
\<close>

definition backoffDuration_init :: "Duration list" where
  "backoffDuration_init =
     [Second,
      5 * Second,
      30 * Second,
      2 * Minute,
      5 * Minute,
      15 * Minute,
      30 * Minute,
      1 * Hour,
      2 * Hour,
      6 * Hour]"

text \<open>
  Everything the two functions read or change besides their arguments:
  \<^item> \<open>driver\<close>: the internal state of the backup store driver, which a \<open>Read\<close> may change;
  \<^item> \<open>backoffDuration\<close>: the package variable of that name;
  \<^item> \<open>read_log\<close>: every call of the driver's \<open>Read\<close> so far, with its path and its result;
  \<^item> \<open>slept\<close>: the argument of every \<open>time.Sleep\<close> so far;
  \<^item> \<open>dav_log\<close>: the arguments of every call of \<open>util.DecompressAndVerify\<close> so far;
  \<^item> \<open>closed\<close>: every stream on which \<open>Close\<close> was called so far.
  All logs are in the order of the calls.
\<close>

record ('d, 'rc) world =
  driver :: 'd
  backoffDuration :: "Duration list"
  read_log :: "(string \<times> (error + 'rc)) list"
  slept :: "Duration list"
  dav_log :: "(string \<times> 'rc \<times> string) list"
  closed :: "'rc list"

text \<open>
  \<open>BackupStoreDriver.Read\<close>: from the driver's state and a path to an error or a stream,
  and the driver's next state. The code looks at the stream only when the error is nil, so
  the two results of the Go method are one value of a sum: \<open>Inl\<close> a non-nil error,
  \<open>Inr\<close> the stream that comes with a nil error.
\<close>

type_synonym ('d, 'rc) Read = "'d \<Rightarrow> string \<Rightarrow> (error + 'rc) \<times> 'd"

text \<open>
  \<open>util.DecompressAndVerify\<close>: from the codec's name, the stream and the checksum to an
  error or a reader of the verified content.
\<close>

type_synonym ('rc, 'r) DecompressAndVerify = "string \<Rightarrow> 'rc \<Rightarrow> string \<Rightarrow> error + 'r"

subsection \<open>readBlockWithRetry\<close>

text \<open>The loop of \<open>readBlockWithRetry\<close>, from a given value of \<open>attempts\<close>.\<close>

function readBlockWithRetry_loop ::
  "('d, 'rc) Read \<Rightarrow> string \<Rightarrow> nat \<Rightarrow> ('d, 'rc) world \<Rightarrow> (error + 'rc) \<times> ('d, 'rc) world"
where
  "readBlockWithRetry_loop bsRead blkFile attempts w =
     (let res = fst (bsRead (driver w) blkFile);
          w1 = w\<lparr>driver := snd (bsRead (driver w) blkFile),
                 read_log := read_log w @ [(blkFile, res)]\<rparr>
      in case res of
           Inr rc \<Rightarrow> (Inr rc, w1)
         | Inl err \<Rightarrow>
             if attempts < length (backoffDuration w1) then
               let dur = backoffDuration w1 ! attempts;
                   w2 = w1\<lparr>slept := slept w1 @ [dur]\<rparr>
               in readBlockWithRetry_loop bsRead blkFile (attempts + 1) w2
             else
               (Inl (Wrapf err (''failed to read block '' @ EscapeMarkers blkFile @ '' after ''
                                  @ fmt_d (attempts + 1) @ '' attempts'')),
                w1))"
  by pat_completeness auto
termination
  by (relation "measure (\<lambda>(bsRead, blkFile, attempts, w). length (backoffDuration w) - attempts)")
     auto

declare readBlockWithRetry_loop.simps [simp del]

definition readBlockWithRetry ::
  "('d, 'rc) Read \<Rightarrow> string \<Rightarrow> ('d, 'rc) world \<Rightarrow> (error + 'rc) \<times> ('d, 'rc) world"
where
  "readBlockWithRetry bsRead blkFile w = readBlockWithRetry_loop bsRead blkFile 0 w"

subsection \<open>DecompressAndVerifyWithFallback\<close>

text \<open>\<open>rc.Close()\<close>; the error it returns is dropped by the code.\<close>

definition Close :: "'rc \<Rightarrow> ('d, 'rc) world \<Rightarrow> ('d, 'rc) world" where
  "Close rc w = w\<lparr>closed := closed w @ [rc]\<rparr>"

text \<open>
  The value of the variable \<open>alternativeDecompression\<close> after the classification of the
  first failure; the empty string when neither signature is found.
\<close>

definition alternativeDecompression :: "error \<Rightarrow> string" where
  "alternativeDecompression err =
     (if Contains (Error err) (Error gzip_ErrHeader) then ''lz4''
      else if Contains (Error err) ''lz4: bad magic number'' then ''gzip''
      else [])"

text \<open>
  The deferred \<open>Close\<close> calls run when the function returns, the last deferred first:
  \<open>retriedRc\<close>, when it was acquired, is closed before \<open>rc\<close>.
\<close>

definition DecompressAndVerifyWithFallback ::
  "('d, 'rc) Read \<Rightarrow> ('rc, 'r) DecompressAndVerify \<Rightarrow> string \<Rightarrow> string \<Rightarrow> string
     \<Rightarrow> ('d, 'rc) world \<Rightarrow> (error + 'r) \<times> ('d, 'rc) world"
where
  "DecompressAndVerifyWithFallback bsRead dav blkFile decompression checksum w =
     (case readBlockWithRetry bsRead blkFile w of
        (Inl err, w1) \<Rightarrow> (Inl err, w1)
      | (Inr rc, w1) \<Rightarrow>
          (let w2 = w1\<lparr>dav_log := dav_log w1 @ [(decompression, rc, checksum)]\<rparr>
           in case dav decompression rc checksum of
                Inr r \<Rightarrow> (Inr r, Close rc w2)
              | Inl err \<Rightarrow>
                  if alternativeDecompression err \<noteq> [] then
                    (case readBlockWithRetry bsRead blkFile w2 of
                       (Inl err2, w3) \<Rightarrow> (Inl err2, Close rc w3)
                     | (Inr retriedRc, w3) \<Rightarrow>
                         (let w4 = w3\<lparr>dav_log := dav_log w3 @
                                     [(alternativeDecompression err, retriedRc, checksum)]\<rparr>
                          in case dav (alternativeDecompression err) retriedRc checksum of
                               Inl err3 \<Rightarrow>
                                 (Inl (Wrapf err3 (''fallback decompression also failed for block ''
                                                     @ EscapeMarkers blkFile)),
                                  Close rc (Close retriedRc w4))
                             | Inr r \<Rightarrow> (Inr r, Close rc (Close retriedRc w4))))
                  else
                    (Inl (Wrapf err (''decompression verification failed for block '' @ EscapeMarkers blkFile)),
                     Close rc w2)))"

subsection \<open>Describing a driver's behaviour\<close>

text \<open>The driver's state after \<open>n\<close> successive calls of \<open>Read\<close> on the same path.\<close>

fun driver_after :: "('d, 'rc) Read \<Rightarrow> string \<Rightarrow> nat \<Rightarrow> 'd \<Rightarrow> 'd" where
  "driver_after bsRead blkFile 0 d = d"
| "driver_after bsRead blkFile (Suc n) d = driver_after bsRead blkFile n (snd (bsRead d blkFile))"

text \<open>The result of call number \<open>n + 1\<close> in such a run of calls (\<open>n\<close> counts from 0).\<close>

definition nth_Read :: "('d, 'rc) Read \<Rightarrow> string \<Rightarrow> nat \<Rightarrow> 'd \<Rightarrow> error + 'rc" where
  "nth_Read bsRead blkFile n d = fst (bsRead (driver_after bsRead blkFile n d) blkFile)"

text \<open>The log entries of the first \<open>n\<close> calls of such a run.\<close>

definition Read_entries ::
  "('d, 'rc) Read \<Rightarrow> string \<Rightarrow> nat \<Rightarrow> 'd \<Rightarrow> (string \<times> (error + 'rc)) list"
where
  "Read_entries bsRead blkFile n d = map (\<lambda>i. (blkFile, nth_Read bsRead blkFile i d)) [0..<n]"

text \<open>The streams a list of log entries holds: the results of the calls that succeeded.\<close>

fun streams_of :: "(string \<times> (error + 'rc)) list \<Rightarrow> 'rc list" where
  "streams_of [] = []"
| "streams_of ((p, Inl e) # es) = streams_of es"
| "streams_of ((p, Inr rc) # es) = rc # streams_of es"

text \<open>The streams acquired from the driver between the worlds \<open>w\<close> and \<open>w'\<close>.\<close>

definition acquired :: "('d, 'rc) world \<Rightarrow> ('d, 'rc) world \<Rightarrow> 'rc list" where
  "acquired w w' = streams_of (drop (length (read_log w)) (read_log w'))"

subsection \<open>Concrete drivers and codecs for the examples\<close>

text \<open>
  A driver that answers its calls from a script, one entry per call, and refuses every call
  once the script is used up.
\<close>

definition scripted_Read :: "((error + nat) list, nat) Read" where
  "scripted_Read d blkFile =
     (case d of [] \<Rightarrow> (Inl (New ''connection refused''), [])
              | r # rs \<Rightarrow> (r, rs))"

text \<open>
  A codec primitive for a block stored with the codec \<open>stored\<close> whose content has the
  checksum \<open>c0ffee\<close>: the stored codec verifies the checksum, the other codec reports
  its format error.
\<close>

definition example_dav :: "string \<Rightarrow> (nat, string) DecompressAndVerify" where
  "example_dav stored codec rc checksum =
     (if codec = stored then
        (if checksum = ''c0ffee'' then Inr ''payload''
         else Inl (New ''checksum verification failed for block''))
      else if codec = ''gzip'' then Inl gzip_ErrHeader
      else if codec = ''lz4'' then Inl (New ''lz4: bad magic number'')
      else Inl (New ''unsupported decompression method''))"

text \<open>A codec primitive whose error text holds both signatures.\<close>

definition ambiguous_dav :: "(nat, string) DecompressAndVerify" where
  "ambiguous_dav codec rc checksum =
     Inl (New ''lz4: bad magic number (after gzip: invalid header)'')"


text \<open>The world before any call, around a given driver state.\<close>

definition world0 :: "'d \<Rightarrow> ('d, 'rc) world" where
  "world0 d = \<lparr>driver = d, backoffDuration = backoffDuration_init, read_log = [],
               slept = [], dav_log = [], closed = []\<rparr>"

section \<open>Auxiliary facts\<close>

subsection \<open>One round of the retry loop\<close>

lemma loop_Inr:
  "fst (bsRead (driver w) blkFile) = Inr rc \<Longrightarrow>
   readBlockWithRetry_loop bsRead blkFile a w =
     (Inr rc, w\<lparr>driver := snd (bsRead (driver w) blkFile),
                read_log := read_log w @ [(blkFile, Inr rc)]\<rparr>)"
  by (simp add: readBlockWithRetry_loop.simps[of _ _ a w] Let_def)

lemma loop_retry:
  "fst (bsRead (driver w) blkFile) = Inl e \<Longrightarrow> a < length (backoffDuration w) \<Longrightarrow>
   readBlockWithRetry_loop bsRead blkFile a w =
     readBlockWithRetry_loop bsRead blkFile (Suc a)
       (w\<lparr>driver := snd (bsRead (driver w) blkFile),
          read_log := read_log w @ [(blkFile, Inl e)],
          slept := slept w @ [backoffDuration w ! a]\<rparr>)"
  by (simp add: readBlockWithRetry_loop.simps[of _ _ a w] Let_def)

lemma loop_exhausted:
  "fst (bsRead (driver w) blkFile) = Inl e \<Longrightarrow> \<not> a < length (backoffDuration w) \<Longrightarrow>
   readBlockWithRetry_loop bsRead blkFile a w =
     (Inl (Wrapf e (''failed to read block '' @ EscapeMarkers blkFile @ '' after ''
                      @ fmt_d (a + 1) @ '' attempts'')),
      w\<lparr>driver := snd (bsRead (driver w) blkFile),
        read_log := read_log w @ [(blkFile, Inl e)]\<rparr>)"
  by (simp add: readBlockWithRetry_loop.simps[of _ _ a w] Let_def)

lemma nth_Read_Suc:
  "nth_Read bsRead blkFile (Suc n) d = nth_Read bsRead blkFile n (snd (bsRead d blkFile))"
  by (simp add: nth_Read_def)

lemma Read_entries_Suc:
  "Read_entries bsRead blkFile (Suc n) d =
     (blkFile, fst (bsRead d blkFile)) # Read_entries bsRead blkFile n (snd (bsRead d blkFile))"
  by (simp add: Read_entries_def nth_Read_def upt_conv_Cons map_Suc_upt[symmetric] del: upt_Suc)

lemma loop_succeeds:
  "a + k \<le> length (backoffDuration w) \<Longrightarrow>
   \<forall>i<k. isl (nth_Read bsRead blkFile i (driver w)) \<Longrightarrow>
   nth_Read bsRead blkFile k (driver w) = Inr rc \<Longrightarrow>
   readBlockWithRetry_loop bsRead blkFile a w =
     (Inr rc,
      w\<lparr>driver := driver_after bsRead blkFile (Suc k) (driver w),
        read_log := read_log w @ Read_entries bsRead blkFile (Suc k) (driver w),
        slept := slept w @ take k (drop a (backoffDuration w))\<rparr>)"
proof (induction k arbitrary: a w)
  case 0
  then show ?case
    by (simp add: loop_Inr nth_Read_def Read_entries_def)
next
  case (Suc k)
  from Suc.prems(2) have "isl (nth_Read bsRead blkFile 0 (driver w))" by blast
  then obtain e where e: "fst (bsRead (driver w) blkFile) = Inl e"
    by (auto simp: nth_Read_def isl_def)
  let ?w2 = "w\<lparr>driver := snd (bsRead (driver w) blkFile),
                read_log := read_log w @ [(blkFile, Inl e)],
                slept := slept w @ [backoffDuration w ! a]\<rparr>"
  have a: "a < length (backoffDuration w)" using Suc.prems(1) by simp
  have step: "readBlockWithRetry_loop bsRead blkFile a w =
              readBlockWithRetry_loop bsRead blkFile (Suc a) ?w2"
    using a e by (rule loop_retry[rotated])
  have ih: "readBlockWithRetry_loop bsRead blkFile (Suc a) ?w2 =
     (Inr rc,
      ?w2\<lparr>driver := driver_after bsRead blkFile (Suc k) (driver ?w2),
        read_log := read_log ?w2 @ Read_entries bsRead blkFile (Suc k) (driver ?w2),
        slept := slept ?w2 @ take k (drop (Suc a) (backoffDuration ?w2))\<rparr>)"
  proof (rule Suc.IH)
    show "Suc a + k \<le> length (backoffDuration ?w2)" using Suc.prems(1) by simp
    show "\<forall>i<k. isl (nth_Read bsRead blkFile i (driver ?w2))"
      using Suc.prems(2) by (auto simp: nth_Read_Suc[symmetric])
    show "nth_Read bsRead blkFile k (driver ?w2) = Inr rc"
      using Suc.prems(3) by (simp add: nth_Read_Suc)
  qed
  have tk: "take (Suc k) (drop a (backoffDuration w)) =
            backoffDuration w ! a # take k (drop (Suc a) (backoffDuration w))"
    using a by (simp add: Cons_nth_drop_Suc[symmetric])
  show ?case
    unfolding step ih
    by (simp add: tk Read_entries_Suc[of _ _ "Suc k"] e)
qed



lemma length_backoffDuration_init: "length backoffDuration_init = 10"
  by (simp add: backoffDuration_init_def)

subsection \<open>Substrings\<close>

lemma HasPrefix_iff: "HasPrefix s p \<longleftrightarrow> (\<exists>q. s = p @ q)"
  by (induction s p rule: HasPrefix.induct) auto

lemma Contains_iff: "Contains s sub \<longleftrightarrow> (\<exists>p q. s = p @ sub @ q)"
proof (induction s)
  case Nil
  then show ?case by auto
next
  case (Cons x s)
  show ?case
  proof
    assume "Contains (x # s) sub"
    then consider "HasPrefix (x # s) sub" | "Contains s sub" by auto
    then show "\<exists>p q. x # s = p @ sub @ q"
    proof cases
      case 1
      then obtain q where "x # s = sub @ q" by (auto simp: HasPrefix_iff)
      then have "x # s = [] @ sub @ q" by simp
      then show ?thesis by blast
    next
      case 2
      then obtain p q where "s = p @ sub @ q" using Cons.IH by blast
      then have "x # s = (x # p) @ sub @ q" by simp
      then show ?thesis by blast
    qed
  next
    assume "\<exists>p q. x # s = p @ sub @ q"
    then obtain p q where pq: "x # s = p @ sub @ q" by blast
    show "Contains (x # s) sub"
    proof (cases p)
      case Nil
      with pq have "HasPrefix (x # s) sub" by (auto simp: HasPrefix_iff)
      then show ?thesis by simp
    next
      case (Cons y p')
      with pq have "s = p' @ sub @ q" by simp
      then have "Contains s sub" using Cons.IH by blast
      then show ?thesis by simp
    qed
  qed
qed

subsection \<open>Escaping of markers\<close>



subsection \<open>What readBlockWithRetry leaves alone\<close>

lemma streams_of_append: "streams_of (xs @ ys) = streams_of xs @ streams_of ys"
  by (induction xs rule: streams_of.induct) simp_all

lemma loop_effect:
  "readBlockWithRetry_loop bsRead blkFile a w = (res, w') \<Longrightarrow>
   backoffDuration w' = backoffDuration w \<and> dav_log w' = dav_log w \<and> closed w' = closed w \<and>
   (\<exists>es. read_log w' = read_log w @ es \<and>
         streams_of es = (case res of Inl e \<Rightarrow> [] | Inr rc \<Rightarrow> [rc]))"
proof (induction "length (backoffDuration w) - a" arbitrary: a w)
  case 0
  show ?case
  proof (cases "fst (bsRead (driver w) blkFile)")
    case (Inl e)
    have "\<not> a < length (backoffDuration w)" using 0(1) by simp
    with Inl have "readBlockWithRetry_loop bsRead blkFile a w =
       (Inl (Wrapf e (''failed to read block '' @ EscapeMarkers blkFile @ '' after ''
                        @ fmt_d (a + 1) @ '' attempts'')),
        w\<lparr>driver := snd (bsRead (driver w) blkFile),
          read_log := read_log w @ [(blkFile, Inl e)]\<rparr>)"
      by (rule loop_exhausted)
    with 0(2) have "\<exists>e'. res = Inl e'"
      "w' = w\<lparr>driver := snd (bsRead (driver w) blkFile),
               read_log := read_log w @ [(blkFile, Inl e)]\<rparr>"
      by auto
    then show ?thesis by auto
  next
    case (Inr rc)
    from loop_Inr[where bsRead=bsRead and w=w and blkFile=blkFile and a=a, OF Inr] 0(2) have "res = Inr rc"
      "w' = w\<lparr>driver := snd (bsRead (driver w) blkFile),
               read_log := read_log w @ [(blkFile, Inr rc)]\<rparr>"
      by simp_all
    then show ?thesis by simp
  qed
next
  case (Suc n)
  show ?case
  proof (cases "fst (bsRead (driver w) blkFile)")
    case (Inl e)
    let ?w2 = "w\<lparr>driver := snd (bsRead (driver w) blkFile),
                  read_log := read_log w @ [(blkFile, Inl e)],
                  slept := slept w @ [backoffDuration w ! a]\<rparr>"
    have a: "a < length (backoffDuration w)" using Suc(2) by simp
    have "readBlockWithRetry_loop bsRead blkFile (Suc a) ?w2 = (res, w')"
      using Suc(3) loop_retry[where bsRead=bsRead and w=w and blkFile=blkFile and a=a, OF Inl a] by simp
    moreover have "n = length (backoffDuration ?w2) - Suc a" using Suc(2) by simp
    ultimately have
      "backoffDuration w' = backoffDuration ?w2 \<and> dav_log w' = dav_log ?w2 \<and>
       closed w' = closed ?w2 \<and>
       (\<exists>es. read_log w' = read_log ?w2 @ es \<and>
             streams_of es = (case res of Inl e \<Rightarrow> [] | Inr rc \<Rightarrow> [rc]))"
      using Suc(1) by blast
    then obtain es where es: "read_log w' = read_log ?w2 @ es"
        "streams_of es = (case res of Inl e \<Rightarrow> [] | Inr rc \<Rightarrow> [rc])"
      and rest: "backoffDuration w' = backoffDuration w" "dav_log w' = dav_log w"
        "closed w' = closed w"
      by auto
    from es have "read_log w' = read_log w @ ((blkFile, Inl e) # es)"
      "streams_of ((blkFile, Inl e) # es) = (case res of Inl e \<Rightarrow> [] | Inr rc \<Rightarrow> [rc])"
      by simp_all
    with rest show ?thesis by blast
  next
    case (Inr rc)
    from loop_Inr[where bsRead=bsRead and w=w and blkFile=blkFile and a=a, OF Inr] Suc(3) have "res = Inr rc"
      "w' = w\<lparr>driver := snd (bsRead (driver w) blkFile),
               read_log := read_log w @ [(blkFile, Inr rc)]\<rparr>"
      by simp_all
    then show ?thesis by simp
  qed
qed

lemma readBlockWithRetry_effect:
  "readBlockWithRetry bsRead blkFile w = (res, w') \<Longrightarrow>
   backoffDuration w' = backoffDuration w \<and> dav_log w' = dav_log w \<and> closed w' = closed w \<and>
   (\<exists>es. read_log w' = read_log w @ es \<and>
         streams_of es = (case res of Inl e \<Rightarrow> [] | Inr rc \<Rightarrow> [rc]))"
  unfolding readBlockWithRetry_def by (rule loop_effect)


lemma acquired_append: "read_log w' = read_log w @ es \<Longrightarrow> acquired w w' = streams_of es"
  by (simp add: acquired_def)

subsection \<open>The paths of DecompressAndVerifyWithFallback\<close>

lemma alternativeDecompression_cases:
  "alternativeDecompression err =
     (if Contains (Error err) ''gzip: invalid header'' then ''lz4''
      else if Contains (Error err) ''lz4: bad magic number'' then ''gzip''
      else [])"
  by (simp add: alternativeDecompression_def gzip_ErrHeader_def)

lemma DAVWF_read_fails:
  "readBlockWithRetry bsRead blkFile w = (Inl err, w1) \<Longrightarrow>
   DecompressAndVerifyWithFallback bsRead dav blkFile decompression checksum w = (Inl err, w1)"
  by (simp add: DecompressAndVerifyWithFallback_def)

lemma DAVWF_first_succeeds:
  "readBlockWithRetry bsRead blkFile w = (Inr rc, w1) \<Longrightarrow>
   dav decompression rc checksum = Inr r \<Longrightarrow>
   DecompressAndVerifyWithFallback bsRead dav blkFile decompression checksum w =
     (Inr r, w1\<lparr>dav_log := dav_log w1 @ [(decompression, rc, checksum)],
                closed := closed w1 @ [rc]\<rparr>)"
  by (simp add: DecompressAndVerifyWithFallback_def Close_def)

lemma DAVWF_no_alternative:
  "readBlockWithRetry bsRead blkFile w = (Inr rc, w1) \<Longrightarrow>
   dav decompression rc checksum = Inl err \<Longrightarrow>
   alternativeDecompression err = [] \<Longrightarrow>
   DecompressAndVerifyWithFallback bsRead dav blkFile decompression checksum w =
     (Inl (Wrapf err (''decompression verification failed for block '' @ EscapeMarkers blkFile)),
      w1\<lparr>dav_log := dav_log w1 @ [(decompression, rc, checksum)],
         closed := closed w1 @ [rc]\<rparr>)"
  by (simp add: DecompressAndVerifyWithFallback_def Close_def)

lemma DAVWF_second_read_fails:
  "readBlockWithRetry bsRead blkFile w = (Inr rc, w1) \<Longrightarrow>
   dav decompression rc checksum = Inl err \<Longrightarrow>
   alternativeDecompression err \<noteq> [] \<Longrightarrow>
   readBlockWithRetry bsRead blkFile
     (w1\<lparr>dav_log := dav_log w1 @ [(decompression, rc, checksum)]\<rparr>) = (Inl err2, w3) \<Longrightarrow>
   DecompressAndVerifyWithFallback bsRead dav blkFile decompression checksum w =
     (Inl err2, w3\<lparr>closed := closed w3 @ [rc]\<rparr>)"
  by (simp add: DecompressAndVerifyWithFallback_def Close_def)

lemma DAVWF_fallback:
  "readBlockWithRetry bsRead blkFile w = (Inr rc, w1) \<Longrightarrow>
   dav decompression rc checksum = Inl err \<Longrightarrow>
   alternativeDecompression err \<noteq> [] \<Longrightarrow>
   readBlockWithRetry bsRead blkFile
     (w1\<lparr>dav_log := dav_log w1 @ [(decompression, rc, checksum)]\<rparr>) = (Inr retriedRc, w3) \<Longrightarrow>
   DecompressAndVerifyWithFallback bsRead dav blkFile decompression checksum w =
     (case dav (alternativeDecompression err) retriedRc checksum of
        Inl err3 \<Rightarrow> Inl (Wrapf err3 (''fallback decompression also failed for block '' @ EscapeMarkers blkFile))
      | Inr r \<Rightarrow> Inr r,
      w3\<lparr>dav_log := dav_log w3 @ [(alternativeDecompression err, retriedRc, checksum)],
         closed := closed w3 @ [retriedRc, rc]\<rparr>)"
  by (simp add: DecompressAndVerifyWithFallback_def Close_def split: sum.split)

lemma DAVWF_dav_log:
  assumes "readBlockWithRetry bsRead blkFile w = (Inr rc, w1)"
    and "dav decompression rc checksum = Inl err"
  shows "dav_log (snd (DecompressAndVerifyWithFallback bsRead dav blkFile decompression checksum w))
         = dav_log w @ (decompression, rc, checksum) #
             (if alternativeDecompression err = [] then []
              else case fst (readBlockWithRetry bsRead blkFile
                               (w1\<lparr>dav_log := dav_log w1 @ [(decompression, rc, checksum)]\<rparr>)) of
                     Inl err2 \<Rightarrow> []
                   | Inr retriedRc \<Rightarrow> [(alternativeDecompression err, retriedRc, checksum)])"
proof -
  let ?w2 = "w1\<lparr>dav_log := dav_log w1 @ [(decompression, rc, checksum)]\<rparr>"
  from readBlockWithRetry_effect[OF assms(1)] have d1: "dav_log w1 = dav_log w" by simp
  show ?thesis
  proof (cases "alternativeDecompression err = []")
    case True
    from DAVWF_no_alternative[where dav=dav and decompression=decompression
           and checksum=checksum, OF assms True] d1 True
    show ?thesis by simp
  next
    case False
    obtain res2 w3 where r2: "readBlockWithRetry bsRead blkFile ?w2 = (res2, w3)"
      by (cases "readBlockWithRetry bsRead blkFile ?w2")
    from readBlockWithRetry_effect[OF r2] have d2: "dav_log w3 = dav_log ?w2" by simp
    show ?thesis
    proof (cases res2)
      case (Inl err2)
      with r2 have r2': "readBlockWithRetry bsRead blkFile ?w2 = (Inl err2, w3)" by simp
      from DAVWF_second_read_fails[where dav=dav and decompression=decompression
             and checksum=checksum, OF assms False r2'] d1 d2 False r2'
      show ?thesis by simp
    next
      case (Inr retriedRc)
      with r2 have r2': "readBlockWithRetry bsRead blkFile ?w2 = (Inr retriedRc, w3)" by simp
      from DAVWF_fallback[where dav=dav and decompression=decompression
             and checksum=checksum, OF assms False r2'] d1 d2 False r2'
      show ?thesis by simp
    qed
  qed
qed

lemma DAVWF_backoffDuration:
  "backoffDuration (snd (DecompressAndVerifyWithFallback bsRead dav blkFile decompression checksum w))
     = backoffDuration w"
proof -
  let ?D = "DecompressAndVerifyWithFallback bsRead dav blkFile decompression checksum w"
  obtain res1 w1 where r1: "readBlockWithRetry bsRead blkFile w = (res1, w1)"
    by (cases "readBlockWithRetry bsRead blkFile w")
  from readBlockWithRetry_effect[OF r1] have b1: "backoffDuration w1 = backoffDuration w"
    by simp
  show ?thesis
  proof (cases res1)
    case (Inl e)
    with r1 b1 show ?thesis by (simp add: DAVWF_read_fails)
  next
    case (Inr rc)
    let ?w2 = "w1\<lparr>dav_log := dav_log w1 @ [(decompression, rc, checksum)]\<rparr>"
    have r1': "readBlockWithRetry bsRead blkFile w = (Inr rc, w1)" using r1 Inr by simp
    obtain res2 w3 where r2: "readBlockWithRetry bsRead blkFile ?w2 = (res2, w3)"
      by (cases "readBlockWithRetry bsRead blkFile ?w2")
    from readBlockWithRetry_effect[OF r2] have b2: "backoffDuration w3 = backoffDuration w1"
      by simp
    show ?thesis
      using r1' r2 b1 b2
      by (simp add: DecompressAndVerifyWithFallback_def Close_def Let_def
               split: sum.split)
  qed
qed

subsection \<open>The scripted driver\<close>



section \<open>The claims\<close>

text \<open>
  Claim C1. Let the package variable hold the initial schedule and let the driver fail the
  read of the block file exactly \<open>k\<close> times, \<open>k \<le> 10\<close>, and then succeed with
  the stream \<open>rc\<close>. Then \<open>readBlockWithRetry\<close> returns \<open>rc\<close>, the result of call
  number \<open>k + 1\<close>; the calls of \<open>Read\<close> it made are exactly these \<open>k + 1\<close> calls,
  so none follows the first success; and it slept exactly \<open>k\<close> times, for the first
  \<open>k\<close> durations of the schedule, in their order. Nothing else of the world changes.
\<close>

theorem readBlockWithRetry_fails_k_then_succeeds:
  assumes "backoffDuration w = backoffDuration_init"
    and "k \<le> 10"
    and "\<forall>i<k. isl (nth_Read bsRead blkFile i (driver w))"
    and "nth_Read bsRead blkFile k (driver w) = Inr rc"
  shows "readBlockWithRetry bsRead blkFile w =
     (Inr rc,
      w\<lparr>driver := driver_after bsRead blkFile (Suc k) (driver w),
        read_log := read_log w @ Read_entries bsRead blkFile (Suc k) (driver w),
        slept := slept w @ take k backoffDuration_init\<rparr>)"
proof -
  have "0 + k \<le> length (backoffDuration w)"
    using assms(1,2) by (simp add: length_backoffDuration_init)
  from loop_succeeds[OF this assms(3,4)] assms(1) show ?thesis
    by (simp add: readBlockWithRetry_def)
qed

text \<open>
  The same at a driver that fails twice and then returns stream 7: three calls of
  \<open>Read\<close>, sleeps of one and of five seconds.
\<close>

theorem readBlockWithRetry_fails_k_then_succeeds_witness:
  "isl (nth_Read scripted_Read ''blk'' 0 [Inl (New ''timeout''), Inl (New ''reset''), Inr 7]) \<and>
   isl (nth_Read scripted_Read ''blk'' 1 [Inl (New ''timeout''), Inl (New ''reset''), Inr 7]) \<and>
   nth_Read scripted_Read ''blk'' 2 [Inl (New ''timeout''), Inl (New ''reset''), Inr 7] = Inr 7 \<and>
   readBlockWithRetry scripted_Read ''blk''
       (world0 [Inl (New ''timeout''), Inl (New ''reset''), Inr 7]) =
     (Inr 7,
      \<lparr>driver = [], backoffDuration = backoffDuration_init,
       read_log = [(''blk'', Inl (New ''timeout'')), (''blk'', Inl (New ''reset'')),
                   (''blk'', Inr 7)],
       slept = [Second, 5 * Second], dav_log = [], closed = []\<rparr>)"
proof -
  let ?d = "[Inl (New ''timeout''), Inl (New ''reset''), Inr (7::nat)]"
  let ?w = "world0 ?d :: ((error + nat) list, nat) world"
  have r0: "nth_Read scripted_Read ''blk'' 0 ?d = Inl (New ''timeout'')" by code_simp
  have r1: "nth_Read scripted_Read ''blk'' 1 ?d = Inl (New ''reset'')" by code_simp
  have r2: "nth_Read scripted_Read ''blk'' 2 ?d = Inr 7" by code_simp
  have h1: "backoffDuration ?w = backoffDuration_init" by (simp add: world0_def)
  have h2: "(2::nat) \<le> 10" by simp
  have h3: "\<forall>i<2. isl (nth_Read scripted_Read ''blk'' i (driver ?w))"
    using r0 r1 by (auto simp: world0_def less_2_cases_iff)
  have h4: "nth_Read scripted_Read ''blk'' 2 (driver ?w) = Inr 7"
    using r2 by (simp add: world0_def)
  have d: "driver_after scripted_Read ''blk'' 3 ?d = []" by code_simp
  have e: "Read_entries scripted_Read ''blk'' 3 ?d =
     [(''blk'', Inl (New ''timeout'')), (''blk'', Inl (New ''reset'')), (''blk'', Inr 7)]"
    by code_simp
  have t: "take 2 backoffDuration_init = [Second, 5 * Second]"
    by (simp add: backoffDuration_init_def)
  from readBlockWithRetry_fails_k_then_succeeds[OF h1 h2 h3 h4] r0 r1 r2 show ?thesis
    by (simp add: world0_def d e t)
qed






text \<open>
  Claim C4. When the first attempt fails with \<open>err\<close>, the alternate codec is lz4 if
  the text of \<open>err\<close> has \<open>gzip: invalid header\<close> as a substring, else gzip if it has
  \<open>lz4: bad magic number\<close> as a substring, else none (the empty string). The codec so
  selected is the one the fallback attempt is made with: the function calls the codec
  primitive a second time, on the second stream and with this codec, exactly when a codec
  was selected and the second acquisition succeeded.
\<close>

theorem alternative_codec_selection:
  assumes "readBlockWithRetry bsRead blkFile w = (Inr rc, w1)"
    and "dav decompression rc checksum = Inl err"
  shows "alternativeDecompression err =
           (if \<exists>p q. Error err = p @ ''gzip: invalid header'' @ q then ''lz4''
            else if \<exists>p q. Error err = p @ ''lz4: bad magic number'' @ q then ''gzip''
            else [])
         \<and> dav_log (snd (DecompressAndVerifyWithFallback bsRead dav blkFile decompression
                            checksum w))
           = dav_log w @ (decompression, rc, checksum) #
               (if alternativeDecompression err = [] then []
                else case fst (readBlockWithRetry bsRead blkFile
                                 (w1\<lparr>dav_log := dav_log w1 @ [(decompression, rc, checksum)]\<rparr>)) of
                       Inl err2 \<Rightarrow> []
                     | Inr retriedRc \<Rightarrow> [(alternativeDecompression err, retriedRc, checksum)])"
proof -
  have "alternativeDecompression err =
           (if \<exists>p q. Error err = p @ ''gzip: invalid header'' @ q then ''lz4''
            else if \<exists>p q. Error err = p @ ''lz4: bad magic number'' @ q then ''gzip''
            else [])"
    unfolding alternativeDecompression_cases Contains_iff ..
  with DAVWF_dav_log[where dav=dav and decompression=decompression and checksum=checksum,
         OF assms]
  show ?thesis by blast
qed

text \<open>
  The same for a block stored with gzip and requested as lz4: the lz4 bad magic error
  selects gzip for the second call.
\<close>

theorem alternative_codec_selection_witness:
  "example_dav ''gzip'' ''lz4'' 3 ''c0ffee'' = Inl (New ''lz4: bad magic number'')
   \<and> alternativeDecompression (New ''lz4: bad magic number'') = ''gzip''
   \<and> dav_log (snd (DecompressAndVerifyWithFallback scripted_Read (example_dav ''gzip'') ''blk''
                      ''lz4'' ''c0ffee'' (world0 [Inr 3, Inr 4])))
     = [(''lz4'', 3, ''c0ffee''), (''gzip'', 4, ''c0ffee'')]"
proof -
  let ?w = "world0 [Inr 3, Inr 4] :: ((error + nat) list, nat) world"
  let ?w1 = "\<lparr>driver = [Inr (4::nat)], backoffDuration = backoffDuration_init,
              read_log = [(''blk'', Inr (3::nat))],
              slept = [], dav_log = [], closed = []\<rparr>"
  have h1: "readBlockWithRetry scripted_Read ''blk'' ?w = (Inr 3, ?w1)" by code_simp
  have h2: "example_dav ''gzip'' ''lz4'' 3 ''c0ffee'' = Inl (New ''lz4: bad magic number'')"
    by code_simp
  have a: "alternativeDecompression (New ''lz4: bad magic number'') = ''gzip''" by code_simp
  have r: "fst (readBlockWithRetry scripted_Read ''blk''
                  (?w1\<lparr>dav_log := dav_log ?w1 @ [(''lz4'', 3, ''c0ffee'')]\<rparr>)) = Inr 4"
    by code_simp
  from alternative_codec_selection[where dav="example_dav ''gzip''", OF h1 h2]
  have "dav_log (snd (DecompressAndVerifyWithFallback scripted_Read (example_dav ''gzip'')
                        ''blk'' ''lz4'' ''c0ffee'' ?w))
        = [(''lz4'', 3, ''c0ffee''), (''gzip'', 4, ''c0ffee'')]"
    unfolding a r by (simp add: world0_def)
  with h2 a show ?thesis by simp
qed




text \<open>
  Claim C6. When the first \<open>readBlockWithRetry\<close> fails, the function returns the very
  same error in the very world that call left: the codec primitive was not called and
  nothing was closed.
\<close>

theorem first_read_failure_propagates:
  assumes "readBlockWithRetry bsRead blkFile w = (Inl err, w1)"
  shows "DecompressAndVerifyWithFallback bsRead dav blkFile decompression checksum w = (Inl err, w1)
         \<and> dav_log w1 = dav_log w \<and> closed w1 = closed w"
  using assms readBlockWithRetry_effect[OF assms]
  by (simp add: DecompressAndVerifyWithFallback_def)

text \<open>The same at a driver that never serves a read.\<close>

theorem first_read_failure_propagates_witness:
  "readBlockWithRetry scripted_Read ''blk'' (world0 [Inl (New ''timeout'')]) =
     (Inl (Wrapf (New ''connection refused'') ''failed to read block blk after 11 attempts''),
      \<lparr>driver = [], backoffDuration = backoffDuration_init,
       read_log = (''blk'', Inl (New ''timeout'')) #
                  replicate 10 (''blk'', Inl (New ''connection refused'')),
       slept = backoffDuration_init, dav_log = [], closed = []\<rparr>) \<and>
   DecompressAndVerifyWithFallback scripted_Read (example_dav ''gzip'') ''blk'' ''gzip'' ''c0ffee''
       (world0 [Inl (New ''timeout'')]) =
     (Inl (Wrapf (New ''connection refused'') ''failed to read block blk after 11 attempts''),
      \<lparr>driver = [], backoffDuration = backoffDuration_init,
       read_log = (''blk'', Inl (New ''timeout'')) #
                  replicate 10 (''blk'', Inl (New ''connection refused'')),
       slept = backoffDuration_init, dav_log = [], closed = []\<rparr>)"
proof -
  have h: "readBlockWithRetry scripted_Read ''blk'' (world0 [Inl (New ''timeout'')]) =
     (Inl (Wrapf (New ''connection refused'') ''failed to read block blk after 11 attempts''),
      \<lparr>driver = [], backoffDuration = backoffDuration_init,
       read_log = (''blk'', Inl (New ''timeout'')) #
                  replicate 10 (''blk'', Inl (New ''connection refused'')),
       slept = backoffDuration_init, dav_log = [], closed = []\<rparr>)"
    by code_simp
  from first_read_failure_propagates[OF h, of "example_dav ''gzip''" "''gzip''" "''c0ffee''"] h
  show ?thesis by simp
qed

text \<open>
  Claim C8. The schedule is the list of 1 s, 5 s, 30 s, 2 min, 5 min, 15 min, 30 min, 1 h,
  2 h and 6 h, in this order; it has 10 entries; and neither \<open>readBlockWithRetry\<close> nor
  \<open>DecompressAndVerifyWithFallback\<close> changes the package variable that holds it,
  whatever the driver and the codec primitive do.
\<close>

theorem backoffDuration_fixed:
  "backoffDuration_init =
     map (\<lambda>s. s * Second) [1, 5, 30, 2 * 60, 5 * 60, 15 * 60, 30 * 60, 3600, 2 * 3600, 6 * 3600]
   \<and> length backoffDuration_init = 10
   \<and> backoffDuration (snd (readBlockWithRetry bsRead blkFile w)) = backoffDuration w
   \<and> backoffDuration
       (snd (DecompressAndVerifyWithFallback bsRead dav blkFile decompression checksum w))
     = backoffDuration w"
proof -
  have "backoffDuration_init =
     map (\<lambda>s. s * Second) [1, 5, 30, 2 * 60, 5 * 60, 15 * 60, 30 * 60, 3600, 2 * 3600, 6 * 3600]"
    by (simp add: backoffDuration_init_def Minute_def Hour_def)
  moreover have "backoffDuration (snd (readBlockWithRetry bsRead blkFile w)) = backoffDuration w"
    using readBlockWithRetry_effect[of bsRead blkFile w
            "fst (readBlockWithRetry bsRead blkFile w)" "snd (readBlockWithRetry bsRead blkFile w)"]
    by simp
  ultimately show ?thesis
    by (simp add: length_backoffDuration_init DAVWF_backoffDuration)
qed

text \<open>
  Claim C9. Whatever the driver and the codec primitive do, when
  \<open>DecompressAndVerifyWithFallback\<close> returns, the \<open>Close\<close> calls it made are exactly
  one for each stream it acquired from the driver, the stream acquired last closed first.
  So the first stream, and the second one when a fallback was attempted, are closed on
  every path out of the function.
\<close>

theorem acquired_streams_closed:
  "closed (snd (DecompressAndVerifyWithFallback bsRead dav blkFile decompression checksum w)) =
   closed w @
   rev (acquired w (snd (DecompressAndVerifyWithFallback bsRead dav blkFile decompression checksum w)))"
proof -
  let ?D = "DecompressAndVerifyWithFallback bsRead dav blkFile decompression checksum w"
  obtain res1 w1 where r1: "readBlockWithRetry bsRead blkFile w = (res1, w1)"
    by (cases "readBlockWithRetry bsRead blkFile w")
  from readBlockWithRetry_effect[OF r1] obtain es1 where
    c1: "closed w1 = closed w" and l1: "read_log w1 = read_log w @ es1" and
    s1: "streams_of es1 = (case res1 of Inl e \<Rightarrow> [] | Inr rc \<Rightarrow> [rc])"
    by blast
  show ?thesis
  proof (cases res1)
    case (Inl e)
    with r1 have "?D = (Inl e, w1)" by (simp add: DAVWF_read_fails)
    with c1 l1 s1 Inl show ?thesis by (simp add: acquired_append[OF l1])
  next
    case (Inr rc)
    let ?w2 = "w1\<lparr>dav_log := dav_log w1 @ [(decompression, rc, checksum)]\<rparr>"
    have r1': "readBlockWithRetry bsRead blkFile w = (Inr rc, w1)" using r1 Inr by simp
    have s1': "streams_of es1 = [rc]" using s1 Inr by simp
    show ?thesis
    proof (cases "dav decompression rc checksum")
      case (Inr r)
      from DAVWF_first_succeeds[where dav=dav and decompression=decompression and checksum=checksum, OF r1' Inr]
      have "closed (snd ?D) = closed w1 @ [rc]" "read_log (snd ?D) = read_log w @ es1"
        using l1 by simp_all
      then show ?thesis using c1 s1' by (simp add: acquired_append)
    next
      case (Inl err)
      show ?thesis
      proof (cases "alternativeDecompression err = []")
        case True
        from DAVWF_no_alternative[where dav=dav and decompression=decompression and checksum=checksum, OF r1' Inl True]
        have "closed (snd ?D) = closed w1 @ [rc]" "read_log (snd ?D) = read_log w @ es1"
          using l1 by simp_all
        then show ?thesis using c1 s1' by (simp add: acquired_append)
      next
        case False
        obtain res2 w3 where r2: "readBlockWithRetry bsRead blkFile ?w2 = (res2, w3)"
          by (cases "readBlockWithRetry bsRead blkFile ?w2")
        from readBlockWithRetry_effect[OF r2] obtain es2 where
          c2: "closed w3 = closed ?w2" and l2: "read_log w3 = read_log ?w2 @ es2" and
          s2: "streams_of es2 = (case res2 of Inl e \<Rightarrow> [] | Inr rc \<Rightarrow> [rc])"
          by blast
        have l2': "read_log w3 = read_log w @ (es1 @ es2)" using l1 l2 by simp
        show ?thesis
        proof (cases res2)
          case (Inl err2)
          with r2 have "readBlockWithRetry bsRead blkFile ?w2 = (Inl err2, w3)" by simp
          from DAVWF_second_read_fails[where dav=dav and decompression=decompression and checksum=checksum, OF r1' \<open>dav decompression rc checksum = Inl err\<close> False this]
          have "closed (snd ?D) = closed w3 @ [rc]" "read_log (snd ?D) = read_log w @ (es1 @ es2)"
            using l2' by simp_all
          then show ?thesis using c1 c2 s1' s2 Inl
            by (simp add: acquired_append streams_of_append)
        next
          case (Inr retriedRc)
          with r2 have "readBlockWithRetry bsRead blkFile ?w2 = (Inr retriedRc, w3)" by simp
          from DAVWF_fallback[where dav=dav and decompression=decompression and checksum=checksum, OF r1' \<open>dav decompression rc checksum = Inl err\<close> False this]
          have "closed (snd ?D) = closed w3 @ [retriedRc, rc]"
            "read_log (snd ?D) = read_log w @ (es1 @ es2)"
            using l2' by simp_all
          then show ?thesis using c1 c2 s1' s2 Inr
            by (simp add: acquired_append streams_of_append)
        qed
      qed
    qed
  qed
qed

text \<open>
  Claim C10. Let the first attempt, made with any requested codec, fail with \<open>err\<close>,
  and let the second acquisition succeed. If the text of \<open>err\<close> holds the gzip header
  signature, the second call of the codec primitive is made with lz4, also when lz4 was
  the requested codec and also when the text holds the lz4 signature as well; if it holds
  the lz4 bad magic signature and not the gzip one, the second call is made with gzip,
  also when gzip was the requested codec. The selected codec is the same for all errors
  of the same text.
\<close>

theorem fallback_codec_ignores_requested_codec:
  assumes "readBlockWithRetry bsRead blkFile w = (Inr rc, w1)"
    and "dav decompression rc checksum = Inl err"
    and "readBlockWithRetry bsRead blkFile
           (w1\<lparr>dav_log := dav_log w1 @ [(decompression, rc, checksum)]\<rparr>) = (Inr retriedRc, w3)"
  shows "(Contains (Error err) (Error gzip_ErrHeader) \<longrightarrow>
            dav_log (snd (DecompressAndVerifyWithFallback bsRead dav blkFile decompression
                            checksum w))
            = dav_log w @ [(decompression, rc, checksum), (''lz4'', retriedRc, checksum)])
         \<and> (\<not> Contains (Error err) (Error gzip_ErrHeader)
              \<and> Contains (Error err) ''lz4: bad magic number'' \<longrightarrow>
            dav_log (snd (DecompressAndVerifyWithFallback bsRead dav blkFile decompression
                            checksum w))
            = dav_log w @ [(decompression, rc, checksum), (''gzip'', retriedRc, checksum)])
         \<and> (\<forall>err'. Error err' = Error err \<longrightarrow>
              alternativeDecompression err' = alternativeDecompression err)"
  using DAVWF_dav_log[where dav=dav and decompression=decompression and checksum=checksum,
          OF assms(1,2)] assms(3)
  by (simp add: alternativeDecompression_def)

text \<open>
  The same for a request of lz4 whose error text holds both signatures: the second call
  is made with lz4 again.
\<close>

theorem fallback_codec_ignores_requested_codec_witness:
  "ambiguous_dav ''lz4'' 1 ''c0ffee'' =
     Inl (New ''lz4: bad magic number (after gzip: invalid header)'')
   \<and> Contains ''lz4: bad magic number (after gzip: invalid header)'' (Error gzip_ErrHeader)
   \<and> Contains ''lz4: bad magic number (after gzip: invalid header)'' ''lz4: bad magic number''
   \<and> dav_log (snd (DecompressAndVerifyWithFallback scripted_Read ambiguous_dav ''blk''
                      ''lz4'' ''c0ffee'' (world0 [Inr 1, Inr 2])))
     = [(''lz4'', 1, ''c0ffee''), (''lz4'', 2, ''c0ffee'')]"
proof -
  let ?w = "world0 [Inr 1, Inr 2] :: ((error + nat) list, nat) world"
  let ?w1 = "\<lparr>driver = [Inr (2::nat)], backoffDuration = backoffDuration_init,
              read_log = [(''blk'', Inr (1::nat))],
              slept = [], dav_log = [], closed = []\<rparr>"
  let ?w3 = "\<lparr>driver = [] :: (error + nat) list, backoffDuration = backoffDuration_init,
              read_log = [(''blk'', Inr (1::nat)), (''blk'', Inr 2)],
              slept = [], dav_log = [(''lz4'', 1::nat, ''c0ffee'')], closed = []\<rparr>"
  have h1: "readBlockWithRetry scripted_Read ''blk'' ?w = (Inr 1, ?w1)" by code_simp
  have h2: "ambiguous_dav ''lz4'' 1 ''c0ffee'' =
              Inl (New ''lz4: bad magic number (after gzip: invalid header)'')"
    by code_simp
  have h3: "readBlockWithRetry scripted_Read ''blk''
              (?w1\<lparr>dav_log := dav_log ?w1 @ [(''lz4'', 1, ''c0ffee'')]\<rparr>) = (Inr 2, ?w3)"
    by code_simp
  have c1: "Contains (Error (New ''lz4: bad magic number (after gzip: invalid header)''))
              (Error gzip_ErrHeader)"
    by code_simp
  have c2: "Contains ''lz4: bad magic number (after gzip: invalid header)''
              ''lz4: bad magic number''"
    by code_simp
  note th = fallback_codec_ignores_requested_codec[where dav=ambiguous_dav, OF h1 h2 h3]
  from th[THEN conjunct1, THEN mp, OF c1]
  have "dav_log (snd (DecompressAndVerifyWithFallback scripted_Read ambiguous_dav ''blk''
                      ''lz4'' ''c0ffee'' ?w))
        = [(''lz4'', 1, ''c0ffee''), (''lz4'', 2, ''c0ffee'')]"
    by (simp add: world0_def)
  moreover from c1
  have "Contains ''lz4: bad magic number (after gzip: invalid header)'' (Error gzip_ErrHeader)"
    by (simp only: Error.simps)
  ultimately show ?thesis using h2 c2 by blast
qed

end
